theory Spec2Isabelle
  imports Complex_Main "HOL-Library.Sublist"
begin

section \<open>EV GIS Prospector: the form controller, the AI query client and the map renderer\<close>

text \<open>
  A shallow embedding of \<^verbatim>\<open>src/index.js\<close>. The React component \<^verbatim>\<open>App\<close> owns five
  pieces of state; its handlers call the state setters and the network in a fixed order.
  A handler is modelled as the list of effects it performs, in order; the state a render
  sees is the fold of the setter effects over the previous state. The component
  \<^verbatim>\<open>RealMap\<close> mutates a Leaflet map through two refs; it is modelled by explicit state
  passing over a record holding the refs and the layers of the map.
\<close>

subsection \<open>Strings\<close>

text \<open>
  A string is a list of code units; the model covers the code units below 256. The code
  points that \<^verbatim>\<open>String.prototype.trim\<close> strips (WhiteSpace and LineTerminator of
  ECMAScript) in this range are TAB, LF, VT, FF, CR, SP and NBSP.
\<close>

definition is_white :: "char \<Rightarrow> bool" where
  "is_white c = (of_char c \<in> {9, 10, 11, 12, 13, 32, 160 :: nat})"

definition trim :: "string \<Rightarrow> string" where
  "trim s = rev (dropWhile is_white (rev (dropWhile is_white s)))"

text \<open>
  \<^verbatim>\<open>s.replace(pat, rep)\<close> with a string pattern replaces the first occurrence of the
  pattern only. (The \<^verbatim>\<open>$\<close> patterns of the replacement are not modelled: the only
  replacement in the source is a space.)
\<close>

fun replace :: "string \<Rightarrow> string \<Rightarrow> string \<Rightarrow> string" where
  "replace pat rep [] = (if pat = [] then rep else [])"
| "replace pat rep (c # cs) =
     (if prefix pat (c # cs) then rep @ drop (length pat) (c # cs)
      else c # replace pat rep cs)"

text \<open>The decimal rendering of a number inside a template literal.\<close>

definition digit :: "nat \<Rightarrow> char" where
  "digit d = char_of (48 + d)"

fun string_of_nat :: "nat \<Rightarrow> string" where
  "string_of_nat n =
     (if n < 10 then [digit n] else string_of_nat (n div 10) @ [digit (n mod 10)])"

subsection \<open>Data model\<close>

record form_data =
  location :: string
  demographics :: string
  traffic :: string
  amenities :: string
  budget :: string

record latlng =
  lat :: real
  lng :: real

text \<open>
  A site carries \<^verbatim>\<open>lat\<close> and \<^verbatim>\<open>lng\<close> like a centre does, so it extends that record.
  The field \<^verbatim>\<open>id\<close> is called \<open>site_id\<close> here.
\<close>

record site = latlng +
  site_id :: int
  name :: string
  rationale :: string
  chargers :: string

record gis_data =
  cityCenter :: latlng
  sites :: "site list"

text \<open>
  The state of \<^verbatim>\<open>App\<close> (lines 92 to 103). A parsed response is taken to conform to the
  response schema of the request, so \<^verbatim>\<open>gisData\<close> is \<^verbatim>\<open>null\<close> or an object with a centre
  and a list of sites, and \<^verbatim>\<open>hoveredSite\<close> is \<^verbatim>\<open>null\<close> or a site.
\<close>

record app_state =
  formData :: form_data
  loading :: bool
  gisData :: "gis_data option"
  error :: "string option"
  hoveredSite :: "site option"

definition initial_formData :: form_data where
  "initial_formData =
     \<lparr>location = '''', demographics = ''urban-dense'', traffic = ''highway-adjacent'',
      amenities = ''retail'', budget = ''medium''\<rparr>"

definition initial_state :: app_state where
  "initial_state =
     \<lparr>formData = initial_formData, loading = False, gisData = None, error = None,
      hoveredSite = None\<rparr>"

subsection \<open>Effects of the handlers\<close>

record payload =
  contents_text :: string
  systemInstruction_text :: string

datatype effect =
    PreventDefault
  | SetLoading bool
  | SetError "string option"
  | SetGisData "gis_data option"
  | SetHoveredSite "site option"
  | Fetch payload
  | Sleep nat

text \<open>What each effect does to the state of \<^verbatim>\<open>App\<close>; the network and the timer leave it alone.\<close>

fun apply_effect :: "effect \<Rightarrow> app_state \<Rightarrow> app_state" where
  "apply_effect PreventDefault s = s"
| "apply_effect (SetLoading b) s = s\<lparr>loading := b\<rparr>"
| "apply_effect (SetError e) s = s\<lparr>error := e\<rparr>"
| "apply_effect (SetGisData g) s = s\<lparr>gisData := g\<rparr>"
| "apply_effect (SetHoveredSite h) s = s\<lparr>hoveredSite := h\<rparr>"
| "apply_effect (Fetch p) s = s"
| "apply_effect (Sleep ms) s = s"

definition run_effects :: "effect list \<Rightarrow> app_state \<Rightarrow> app_state" where
  "run_effects es s = fold apply_effect es s"

fun is_Fetch :: "effect \<Rightarrow> bool" where
  "is_Fetch (Fetch p) = True"
| "is_Fetch _ = False"

fun is_Sleep :: "effect \<Rightarrow> bool" where
  "is_Sleep (Sleep ms) = True"
| "is_Sleep _ = False"

fun stores_result :: "effect \<Rightarrow> bool" where
  "stores_result (SetGisData (Some d)) = True"
| "stores_result _ = False"

subsection \<open>handleInputChange (lines 105 to 108)\<close>

text \<open>
  \<^verbatim>\<open>setFormData(prev => ({ ...prev, [name]: value }))\<close>: the field called \<open>name\<close> gets the
  value. A name that is none of the five adds a property no code reads, and leaves the
  five fields as they are.
\<close>

definition handleInputChange :: "string \<Rightarrow> string \<Rightarrow> app_state \<Rightarrow> app_state" where
  "handleInputChange nm v s =
     s\<lparr>formData :=
        (let prev = formData s in
         if nm = ''location'' then prev\<lparr>location := v\<rparr>
         else if nm = ''demographics'' then prev\<lparr>demographics := v\<rparr>
         else if nm = ''traffic'' then prev\<lparr>traffic := v\<rparr>
         else if nm = ''amenities'' then prev\<lparr>amenities := v\<rparr>
         else if nm = ''budget'' then prev\<lparr>budget := v\<rparr>
         else prev)\<rparr>"

text \<open>The form controls that call it (lines 244 to 310), with their \<^verbatim>\<open>name\<close> attributes.\<close>

datatype control = LocationInput | DemographicsSelect | TrafficSelect | AmenitiesSelect

fun control_name :: "control \<Rightarrow> string" where
  "control_name LocationInput = ''location''"
| "control_name DemographicsSelect = ''demographics''"
| "control_name TrafficSelect = ''traffic''"
| "control_name AmenitiesSelect = ''amenities''"

subsection \<open>callGeminiWithRetry (lines 110 to 172)\<close>

datatype js_error = JsError (message: string)

text \<open>
  What one \<^verbatim>\<open>fetch\<close> call comes to: the promise rejects (a network failure), or it
  resolves with a response that has a status and a body. Lines 163 to 165 read the body:
  they throw (the body is not JSON, the text of the first candidate is missing, or that
  text is not JSON), or they return the parsed object. Every \<^verbatim>\<open>fetch\<close> is taken to
  settle: the source sets no timeout of its own, and a call whose \<^verbatim>\<open>fetch\<close> never
  settles never concludes.
\<close>

datatype response_body = Unreadable string | Parsed gis_data

datatype fetch_outcome = Rejected string | Response nat response_body

text \<open>\<^verbatim>\<open>response.ok\<close> of the Fetch standard: the status is in the range 200 to 299.\<close>

definition ok :: "nat \<Rightarrow> bool" where
  "ok status = (200 \<le> status \<and> status \<le> 299)"

text \<open>The body of the \<^verbatim>\<open>try\<close> block (lines 155 to 165): \<open>Inl\<close> is a thrown error.\<close>

fun attempt :: "fetch_outcome \<Rightarrow> js_error + gis_data" where
  "attempt (Rejected msg) = Inl (JsError msg)"
| "attempt (Response status body) =
     (if \<not> ok status
      then Inl (JsError (''API request failed with status '' @ string_of_nat status))
      else case body of
             Unreadable msg \<Rightarrow> Inl (JsError msg)
           | Parsed d \<Rightarrow> Inr d)"

definition systemInstruction :: string where
  "systemInstruction = ''You are an expert GIS analyst, urban planner, and EV infrastructure consultant. Generate realistic, precise hypothetical map coordinates (latitude/longitude) and site planning data based on the user's geographic and demographic requests.''"

definition make_payload :: "string \<Rightarrow> payload" where
  "make_payload prompt = \<lparr>contents_text = prompt, systemInstruction_text = systemInstruction\<rparr>"

definition delays :: "nat list" where
  "delays = [500, 1000]"

text \<open>
  The loop of lines 153 to 170, from the index \<open>i\<close> on. The network is a function from
  the index of the attempt to what its \<^verbatim>\<open>fetch\<close> comes to. The result is the list of
  network and timer effects, and what the function returns (\<open>Inr\<close>) or throws (\<open>Inl\<close>).
  \<^verbatim>\<open>lastError\<close> is assigned and never read.
\<close>

function retry_loop ::
  "(nat \<Rightarrow> fetch_outcome) \<Rightarrow> payload \<Rightarrow> nat \<Rightarrow> effect list \<times> (js_error + gis_data)" where
  "retry_loop net p i =
     (if i \<le> 2 then
        (case attempt (net i) of
           Inr d \<Rightarrow> ([Fetch p], Inr d)
         | Inl err \<Rightarrow>
             (let waits = (if i < 2 then [Sleep (delays ! i)] else []);
                  (rest, r) = retry_loop net p (i + 1)
              in (Fetch p # waits @ rest, r)))
      else ([], Inl (JsError ''Failed to connect to AI. Please try again.'')))"
  by pat_completeness auto
termination
  by (relation "measure (\<lambda>(net, p, i). 3 - i)") auto

declare retry_loop.simps [simp del]

definition callGeminiWithRetry ::
  "(nat \<Rightarrow> fetch_outcome) \<Rightarrow> string \<Rightarrow> effect list \<times> (js_error + gis_data)" where
  "callGeminiWithRetry net prompt = retry_loop net (make_payload prompt) 0"

subsection \<open>handleSubmit (lines 174 to 207)\<close>

text \<open>The template literal of lines 186 to 197.\<close>

definition prompt :: "form_data \<Rightarrow> string" where
  "prompt fd =
     ''\<newline>      Determine the central coordinates (lat/lng) for: '' @ location fd @ ''.\<newline>'' @
     ''      Then, recommend the top 3 optimal hypothetical sites to build NEW EV charging infrastructure in or around that exact location.\<newline>'' @
     ''      \<newline>'' @
     ''      Criteria constraints:\<newline>'' @
     ''      - Demographics / Area Type: '' @ replace ''-'' '' '' (demographics fd) @ ''\<newline>'' @
     ''      - Traffic Profile: '' @ replace ''-'' '' '' (traffic fd) @ ''\<newline>'' @
     ''      - Nearby Amenities: '' @ replace ''-'' '' '' (amenities fd) @ ''\<newline>'' @
     ''      - Expected Scale/Budget: '' @ budget fd @ ''\<newline>'' @
     ''      \<newline>'' @
     ''      CRITICAL: Ensure the coordinates (lat/lng) for the 3 sites are realistic and actually located near the requested city center (e.g. within a 0.05 to 0.1 degree radius), accurately reflecting the demographics (e.g., near a highway if requested).\<newline>'' @
     ''    ''"

text \<open>
  The handler reads \<^verbatim>\<open>formData\<close> of the render it was created in. The \<^verbatim>\<open>try\<close> block
  stores the result, the \<^verbatim>\<open>catch\<close> block the message of the error, and the
  \<^verbatim>\<open>finally\<close> block clears the loading flag after either.
\<close>

definition handleSubmit :: "(nat \<Rightarrow> fetch_outcome) \<Rightarrow> form_data \<Rightarrow> effect list" where
  "handleSubmit net fd =
     PreventDefault #
     (if trim (location fd) = []
      then [SetError (Some ''Please enter a target location (City, State, or Region).'')]
      else
        [SetLoading True, SetError None, SetGisData None, SetHoveredSite None] @
        (let (io, r) = callGeminiWithRetry net (prompt fd)
         in io @
            (case r of
               Inr parsedData \<Rightarrow> [SetGisData (Some parsedData)]
             | Inl err \<Rightarrow> [SetError (Some (message err))]) @
            [SetLoading False]))"

subsection \<open>The overlays of the map area (lines 344 to 397)\<close>

datatype overlay = LoadingOverlay | HoverCard | Placeholder

text \<open>
  Three conditional blocks, in the order of the source. An object is truthy, so
  \<^verbatim>\<open>hoveredSite &&\<close> asks for a hovered site and \<^verbatim>\<open>!gisData\<close> for no result. The bare
  map is the empty list.
\<close>

definition overlays :: "app_state \<Rightarrow> overlay list" where
  "overlays s =
     (if loading s then [LoadingOverlay] else []) @
     (if hoveredSite s \<noteq> None \<and> \<not> loading s then [HoverCard] else []) @
     (if gisData s = None \<and> \<not> loading s then [Placeholder] else [])"

subsection \<open>RealMap (lines 5 to 89)\<close>

text \<open>
  A marker is an object of the map library: \<open>marker_id\<close> stands for its identity, and
  \<open>handlers\<close> lists the listeners registered with \<^verbatim>\<open>on\<close>, each as the effects it performs.
  The icon is the same for every marker and is left out.
\<close>

record marker =
  marker_id :: nat
  marker_latlng :: latlng
  handlers :: "(string \<times> effect list) list"

datatype layer = TileLayer string | MarkerLayer marker

record leaflet_map =
  view_center :: latlng
  view_zoom :: nat
  layers :: "layer list"

definition setView :: "latlng \<Rightarrow> nat \<Rightarrow> leaflet_map \<Rightarrow> leaflet_map" where
  "setView c z m = m\<lparr>view_center := c, view_zoom := z\<rparr>"

text \<open>The animation of \<^verbatim>\<open>flyTo\<close> is not modelled, only where it ends.\<close>

definition flyTo :: "latlng \<Rightarrow> nat \<Rightarrow> leaflet_map \<Rightarrow> leaflet_map" where
  "flyTo c z m = m\<lparr>view_center := c, view_zoom := z\<rparr>"

text \<open>\<^verbatim>\<open>layer.addTo(map)\<close> does nothing when the map has the layer already.\<close>

definition addTo :: "layer \<Rightarrow> leaflet_map \<Rightarrow> leaflet_map" where
  "addTo l m = (if l \<in> set (layers m) then m else m\<lparr>layers := layers m @ [l]\<rparr>)"

definition removeLayer :: "layer \<Rightarrow> leaflet_map \<Rightarrow> leaflet_map" where
  "removeLayer l m = m\<lparr>layers := removeAll l (layers m)\<rparr>"

text \<open>Firing an event on a marker runs the listeners registered for it, in order.\<close>

definition fire :: "string \<Rightarrow> marker \<Rightarrow> effect list" where
  "fire ev mk = concat (map snd (filter (\<lambda>h. fst h = ev) (handlers mk)))"

text \<open>
  The refs of the component. \<open>fresh\<close> is not in the source: it is the identity the next
  marker object gets.
\<close>

record realmap =
  mapInstance :: "leaflet_map option"
  markersRef :: "marker list"
  fresh :: nat

definition initial_realmap :: realmap where
  "initial_realmap = \<lparr>mapInstance = None, markersRef = [], fresh = 0\<rparr>"

definition new_map :: leaflet_map where
  "new_map =
     addTo (TileLayer ''https://{s}.basemaps.cartocdn.com/rastertiles/voyager/{z}/{x}/{y}{r}.png'')
       (setView \<lparr>lat = 39.8283, lng = - 98.5795\<rparr> 4
          \<lparr>view_center = \<lparr>lat = 0, lng = 0\<rparr>, view_zoom = 0, layers = []\<rparr>)"

text \<open>The body of \<^verbatim>\<open>sites.forEach\<close> (lines 77 to 82).\<close>

definition add_marker :: "site \<Rightarrow> realmap \<Rightarrow> realmap" where
  "add_marker st r =
     (let mk = \<lparr>marker_id = fresh r,
                marker_latlng = \<lparr>lat = lat st, lng = lng st\<rparr>,
                handlers = [(''mouseover'', [SetHoveredSite (Some st)]),
                            (''mouseout'', [SetHoveredSite None])]\<rparr>
      in r\<lparr>mapInstance := map_option (addTo (MarkerLayer mk)) (mapInstance r),
           markersRef := markersRef r @ [mk],
           fresh := Suc (fresh r)\<rparr>)"

text \<open>
  The callback of \<^verbatim>\<open>loadLeaflet().then\<close> (lines 33 to 84), which runs once the library
  is loaded, after every render that changed \<^verbatim>\<open>gisData\<close>. \<open>mounted\<close> says whether
  \<^verbatim>\<open>mapContainerRef.current\<close> is set.
\<close>

definition realMap_effect :: "bool \<Rightarrow> gis_data option \<Rightarrow> realmap \<Rightarrow> realmap" where
  "realMap_effect mounted g r =
     (if \<not> mounted then r
      else
        let r1 = (case mapInstance r of
                    None \<Rightarrow> r\<lparr>mapInstance := Some new_map\<rparr>
                  | Some m \<Rightarrow> r)
        in case (g, mapInstance r1) of
             (Some d, Some m) \<Rightarrow>
               (let m1 = flyTo (cityCenter d) 13 m;
                    m2 = fold (\<lambda>mk. removeLayer (MarkerLayer mk)) (markersRef r1) m1;
                    r2 = r1\<lparr>mapInstance := Some m2, markersRef := []\<rparr>
                in fold add_marker (sites d) r2)
           | _ \<Rightarrow> r1)"

text \<open>The renderer after the effect has run for each value of \<^verbatim>\<open>gisData\<close> in turn.\<close>

definition render_all :: "gis_data option list \<Rightarrow> realmap" where
  "render_all gs = fold (realMap_effect True) gs initial_realmap"

fun layer_markers :: "layer list \<Rightarrow> marker list" where
  "layer_markers [] = []"
| "layer_markers (MarkerLayer mk # ls) = mk # layer_markers ls"
| "layer_markers (TileLayer u # ls) = layer_markers ls"

definition markers_on_map :: "realmap \<Rightarrow> marker list" where
  "markers_on_map r = (case mapInstance r of None \<Rightarrow> [] | Some m \<Rightarrow> layer_markers (layers m))"

text \<open>What a marker placed for a site looks like, its identity apart.\<close>

definition marker_of_site :: "site \<Rightarrow> latlng \<times> (string \<times> effect list) list" where
  "marker_of_site st =
     (\<lparr>lat = lat st, lng = lng st\<rparr>,
      [(''mouseover'', [SetHoveredSite (Some st)]), (''mouseout'', [SetHoveredSite None])])"

definition marker_shape :: "marker \<Rightarrow> latlng \<times> (string \<times> effect list) list" where
  "marker_shape mk = (marker_latlng mk, handlers mk)"

text \<open>
  The invariant of the specification, in its words: the markers are exactly one per site
  of the given result, and none when there is no result.
\<close>

definition sites_of :: "gis_data option \<Rightarrow> site list" where
  "sites_of g = (case g of None \<Rightarrow> [] | Some d \<Rightarrow> sites d)"

definition markers_reflect :: "realmap \<Rightarrow> gis_data option \<Rightarrow> bool" where
  "markers_reflect r g =
     (markers_on_map r = markersRef r \<and>
      distinct (map marker_id (markersRef r)) \<and>
      map marker_shape (markersRef r) = map marker_of_site (sites_of g))"

text \<open>The current result is the last value of \<^verbatim>\<open>gisData\<close>; the latest result is the last one that is not null.\<close>

definition current_result :: "gis_data option list \<Rightarrow> gis_data option" where
  "current_result gs = (if gs = [] then None else last gs)"

definition latest_result :: "gis_data option list \<Rightarrow> gis_data option" where
  "latest_result gs = current_result (filter (\<lambda>g. g \<noteq> None) gs)"

subsection \<open>The application as a transition system\<close>

text \<open>
  A world is the state of \<^verbatim>\<open>App\<close>, the renderer, and the effects a running
  \<^verbatim>\<open>handleSubmit\<close> has still to perform. The steps are: a form control changes; the form
  is submitted (the button is disabled while loading, so no submission starts while
  another one runs); the running submission performs its next effect, with any other
  step in between; the effect of \<^verbatim>\<open>RealMap\<close> runs; the pointer enters a marker on the
  map, which it can only while no overlay covers the map; the pointer leaves a marker,
  which it also does when an overlay comes to lie over it.
\<close>

record world =
  ui :: app_state
  rmap :: realmap
  inflight :: "effect list"

definition initial_world :: world where
  "initial_world = \<lparr>ui = initial_state, rmap = initial_realmap, inflight = []\<rparr>"

text \<open>
  The map container is \<^verbatim>\<open>z-0 absolute inset-0\<close> (line 88); the loading overlay and the
  placeholder are \<^verbatim>\<open>absolute inset-0 z-50\<close> (lines 346 and 388), so either of them lies
  over the whole map and takes the pointer. The pointer gets onto a marker only while
  neither is rendered.
\<close>

definition map_uncovered :: "app_state \<Rightarrow> bool" where
  "map_uncovered s =
     (LoadingOverlay \<notin> set (overlays s) \<and> Placeholder \<notin> set (overlays s))"

inductive reachable :: "world \<Rightarrow> bool" where
  init: "reachable initial_world"
| change: "reachable w \<Longrightarrow>
     reachable (w\<lparr>ui := handleInputChange (control_name c) v (ui w)\<rparr>)"
| submit: "reachable w \<Longrightarrow> \<not> loading (ui w) \<Longrightarrow> inflight w = [] \<Longrightarrow>
     reachable (w\<lparr>inflight := handleSubmit net (formData (ui w))\<rparr>)"
| advance: "reachable w \<Longrightarrow> inflight w = e # es \<Longrightarrow>
     reachable (w\<lparr>ui := apply_effect e (ui w), inflight := es\<rparr>)"
| render: "reachable w \<Longrightarrow>
     reachable (w\<lparr>rmap := realMap_effect True (gisData (ui w)) (rmap w)\<rparr>)"
| pointer_enter: "reachable w \<Longrightarrow> mk \<in> set (markers_on_map (rmap w)) \<Longrightarrow>
     map_uncovered (ui w) \<Longrightarrow>
     reachable (w\<lparr>ui := run_effects (fire ''mouseover'' mk) (ui w)\<rparr>)"
| pointer_leave: "reachable w \<Longrightarrow> mk \<in> set (markers_on_map (rmap w)) \<Longrightarrow>
     reachable (w\<lparr>ui := run_effects (fire ''mouseout'' mk) (ui w)\<rparr>)"

subsection \<open>Sample data\<close>

text \<open>The form of the specification's example, a result with two sites, and simulated clients.\<close>

definition miami_form :: form_data where
  "miami_form =
     \<lparr>location = ''Miami, FL'', demographics = ''urban-dense'', traffic = ''highway-adjacent'',
      amenities = ''retail'', budget = ''medium''\<rparr>"

definition brickell :: site where
  "brickell =
     \<lparr>lat = 25.7617, lng = - 80.1918, site_id = 1, name = ''Brickell Plaza'',
      rationale = ''Dense retail next to I-95'', chargers = ''4 DC fast''\<rparr>"

definition wynwood :: site where
  "wynwood =
     \<lparr>lat = 25.8042, lng = - 80.1989, site_id = 2, name = ''Wynwood Walls'',
      rationale = ''Destination traffic'', chargers = ''6 Level 2''\<rparr>"

definition miami_result :: gis_data where
  "miami_result = \<lparr>cityCenter = \<lparr>lat = 25.7617, lng = - 80.1918\<rparr>, sites = [brickell, wynwood]\<rparr>"

text \<open>A client that answers the attempts with the listed outcomes, and rejects every later one.\<close>

definition simulated_client :: "fetch_outcome list \<Rightarrow> nat \<Rightarrow> fetch_outcome" where
  "simulated_client outs i = (if i < length outs then outs ! i else Rejected ''Failed to fetch'')"

definition ok_client :: "nat \<Rightarrow> fetch_outcome" where
  "ok_client = simulated_client [Response 200 (Parsed miami_result)]"

definition flaky_client :: "nat \<Rightarrow> fetch_outcome" where
  "flaky_client = simulated_client
     [Rejected ''Failed to fetch'', Response 503 (Unreadable ''Unexpected token <''),
      Response 200 (Parsed miami_result)]"

definition dead_client :: "nat \<Rightarrow> fetch_outcome" where
  "dead_client = simulated_client
     [Rejected ''Failed to fetch'', Response 429 (Unreadable ''''),
      Response 200 (Unreadable ''Unexpected end of JSON input'')]"

subsection \<open>Notions used by the properties\<close>

text \<open>
  The outcomes of a \<^verbatim>\<open>fetch\<close> that the specification lists as errors: a network failure,
  a status outside 200 to 299, a body that cannot be read as the JSON asked for.
\<close>

definition thrown_error :: "fetch_outcome \<Rightarrow> bool" where
  "thrown_error out =
     (case out of
        Rejected msg \<Rightarrow> True
      | Response status body \<Rightarrow>
          \<not> (200 \<le> status \<and> status \<le> 299) \<or>
          (case body of Unreadable msg \<Rightarrow> True | Parsed d \<Rightarrow> False))"

text \<open>
  The invariant of the renderer: the markers on the map are the markers of the ref, and
  their identities are distinct and older than the next one.
\<close>

definition renderer_ok :: "realmap \<Rightarrow> bool" where
  "renderer_ok r =
     (markers_on_map r = markersRef r \<and>
      (\<forall>mk \<in> set (markersRef r). marker_id mk < fresh r) \<and>
      distinct (map marker_id (markersRef r)))"

text \<open>
  For the invariant of the overlays. \<open>l\<close> is the loading flag, \<open>h\<close> says that a site is
  hovered and \<open>g\<close> that there is a result. At most one overlay is rendered when
  \<open>l \<or> \<not> h \<or> g\<close>. The function says that this holds now and after each of the effects
  still to come, whatever the pointer does in between: before each effect a site may have
  become hovered if the map was uncovered.
\<close>

fun keeps_exclusive :: "bool \<Rightarrow> bool \<Rightarrow> bool \<Rightarrow> effect list \<Rightarrow> bool" where
  "keeps_exclusive l h g [] = (l \<or> \<not> h \<or> g)"
| "keeps_exclusive l h g (e # es) =
     ((l \<or> \<not> h \<or> g) \<and>
      (let h' = (h \<or> (\<not> l \<and> g)) in
       case e of
         SetLoading b \<Rightarrow> keeps_exclusive b h' g es
       | SetGisData x \<Rightarrow> keeps_exclusive l h' (x \<noteq> None) es
       | SetHoveredSite x \<Rightarrow> keeps_exclusive l (x \<noteq> None) g es
       | _ \<Rightarrow> keeps_exclusive l h' g es))"

section \<open>The retry loop\<close>

lemma retry_loop_3:
  "retry_loop net p 3 = ([], Inl (JsError ''Failed to connect to AI. Please try again.''))"
  by (simp add: retry_loop.simps[of net p 3])

lemma retry_loop_2:
  "retry_loop net p 2 =
     (case attempt (net 2) of
        Inr d \<Rightarrow> ([Fetch p], Inr d)
      | Inl err \<Rightarrow> ([Fetch p], Inl (JsError ''Failed to connect to AI. Please try again.'')))"
  by (simp add: retry_loop.simps[of net p 2] retry_loop_3 split: sum.splits)

lemma retry_loop_1:
  "retry_loop net p 1 =
     (case attempt (net 1) of
        Inr d \<Rightarrow> ([Fetch p], Inr d)
      | Inl err \<Rightarrow> (Fetch p # Sleep 1000 # fst (retry_loop net p 2), snd (retry_loop net p 2)))"
  by (subst retry_loop.simps[of net p 1])
     (simp add: delays_def numeral_2_eq_2 split: sum.splits prod.splits)

lemma retry_loop_0:
  "retry_loop net p 0 =
     (case attempt (net 0) of
        Inr d \<Rightarrow> ([Fetch p], Inr d)
      | Inl err \<Rightarrow> (Fetch p # Sleep 500 # fst (retry_loop net p 1), snd (retry_loop net p 1)))"
  by (subst retry_loop.simps[of net p 0])
     (simp add: delays_def split: sum.splits prod.splits)

lemma callGeminiWithRetry_unrolled:
  "callGeminiWithRetry net pr =
     (let p = make_payload pr in
      case attempt (net 0) of Inr d \<Rightarrow> ([Fetch p], Inr d) | Inl e0 \<Rightarrow>
      (case attempt (net 1) of Inr d \<Rightarrow> ([Fetch p, Sleep 500, Fetch p], Inr d) | Inl e1 \<Rightarrow>
      (case attempt (net 2) of
         Inr d \<Rightarrow> ([Fetch p, Sleep 500, Fetch p, Sleep 1000, Fetch p], Inr d)
       | Inl e2 \<Rightarrow> ([Fetch p, Sleep 500, Fetch p, Sleep 1000, Fetch p],
                   Inl (JsError ''Failed to connect to AI. Please try again.'')))))"
  unfolding callGeminiWithRetry_def Let_def retry_loop_0 retry_loop_1 retry_loop_2
  by (simp split: sum.splits)

lemma attempt_throws_iff: "isl (attempt out) \<longleftrightarrow> thrown_error out"
  by (auto simp: ok_def thrown_error_def split: fetch_outcome.splits response_body.splits)

lemma ok_client_simps:
  "ok_client 0 = Response 200 (Parsed miami_result)"
  "ok_client 1 = Rejected ''Failed to fetch''"
  "ok_client (Suc 0) = Rejected ''Failed to fetch''"
  by (simp_all add: ok_client_def simulated_client_def)

lemma flaky_client_simps:
  "flaky_client 0 = Rejected ''Failed to fetch''"
  "flaky_client 1 = Response 503 (Unreadable ''Unexpected token <'')"
  "flaky_client (Suc 0) = Response 503 (Unreadable ''Unexpected token <'')"
  "flaky_client 2 = Response 200 (Parsed miami_result)"
  by (simp_all add: flaky_client_def simulated_client_def)

lemma dead_client_simps:
  "dead_client 0 = Rejected ''Failed to fetch''"
  "dead_client 1 = Response 429 (Unreadable '''')"
  "dead_client (Suc 0) = Response 429 (Unreadable '''')"
  "dead_client 2 = Response 200 (Unreadable ''Unexpected end of JSON input'')"
  by (simp_all add: dead_client_def simulated_client_def)

text \<open>
  Claim C1. For every prompt and every network, \<^verbatim>\<open>callGeminiWithRetry\<close> makes at most
  three attempts. An attempt that throws (a network failure, a status that is not 2xx,
  an unreadable body) is followed by a wait of 500 ms after the first and of 1000 ms
  after the second, and then by the next attempt; an attempt that does not throw ends
  the call with its result. After the third attempt has thrown, the call throws an error
  whose message is exactly \<^verbatim>\<open>Failed to connect to AI. Please try again.\<close>
\<close>

theorem callGeminiWithRetry_retry_policy:
  "let p = make_payload pr; (io, r) = callGeminiWithRetry net pr in
     length (filter is_Fetch io) \<le> 3 \<and>
     (\<not> thrown_error (net 0) \<longrightarrow> io = [Fetch p] \<and> r = attempt (net 0)) \<and>
     (thrown_error (net 0) \<and> \<not> thrown_error (net 1) \<longrightarrow>
        io = [Fetch p, Sleep 500, Fetch p] \<and> r = attempt (net 1)) \<and>
     (thrown_error (net 0) \<and> thrown_error (net 1) \<and> \<not> thrown_error (net 2) \<longrightarrow>
        io = [Fetch p, Sleep 500, Fetch p, Sleep 1000, Fetch p] \<and> r = attempt (net 2)) \<and>
     (thrown_error (net 0) \<and> thrown_error (net 1) \<and> thrown_error (net 2) \<longrightarrow>
        io = [Fetch p, Sleep 500, Fetch p, Sleep 1000, Fetch p] \<and>
        r = Inl (JsError ''Failed to connect to AI. Please try again.''))"
proof -
  have t: "\<And>i. thrown_error (net i) = isl (attempt (net i))"
    by (simp add: attempt_throws_iff)
  show ?thesis
    unfolding t callGeminiWithRetry_unrolled Let_def
    by (cases "attempt (net 0)"; cases "attempt (net 1)"; cases "attempt (net 2)"; simp)
qed

text \<open>
  The theorem at three clients: one that answers at once, one that fails twice and then
  answers, and one that fails three times in the three ways.
\<close>

theorem callGeminiWithRetry_retry_policy_witness:
  "callGeminiWithRetry ok_client ''q'' = ([Fetch (make_payload ''q'')], Inr miami_result) \<and>
   callGeminiWithRetry flaky_client ''q'' =
     ([Fetch (make_payload ''q''), Sleep 500, Fetch (make_payload ''q''), Sleep 1000,
       Fetch (make_payload ''q'')], Inr miami_result) \<and>
   callGeminiWithRetry dead_client ''q'' =
     ([Fetch (make_payload ''q''), Sleep 500, Fetch (make_payload ''q''), Sleep 1000,
       Fetch (make_payload ''q'')], Inl (JsError ''Failed to connect to AI. Please try again.''))"
  using callGeminiWithRetry_retry_policy[of "''q''" ok_client]
        callGeminiWithRetry_retry_policy[of "''q''" flaky_client]
        callGeminiWithRetry_retry_policy[of "''q''" dead_client]
  by (simp add: Let_def thrown_error_def ok_client_simps flaky_client_simps dead_client_simps
           ok_def split: prod.splits)

section \<open>Submitting the form\<close>

lemma run_effects_append: "run_effects (xs @ ys) s = run_effects ys (run_effects xs s)"
  by (simp add: run_effects_def)

lemma run_effects_Cons: "run_effects (e # es) s = run_effects es (apply_effect e s)"
  by (simp add: run_effects_def)

lemma run_effects_Nil: "run_effects [] s = s"
  by (simp add: run_effects_def)

lemma callGeminiWithRetry_io:
  "set (fst (callGeminiWithRetry net pr)) \<subseteq> {Fetch (make_payload pr), Sleep 500, Sleep 1000}"
  by (simp add: callGeminiWithRetry_unrolled Let_def split: sum.splits)

lemma run_effects_io: "set io \<subseteq> {Fetch p, Sleep a, Sleep b} \<Longrightarrow> run_effects io s = s"
  by (induction io arbitrary: s) (auto simp: run_effects_Nil run_effects_Cons)

lemma dropWhile_all: "(\<forall>x \<in> set (dropWhile P xs). P x) \<longleftrightarrow> (\<forall>x \<in> set xs. P x)"
  by (induction xs) auto

lemma trim_empty_iff: "trim s = [] \<longleftrightarrow> (\<forall>c \<in> set s. is_white c)"
  by (simp add: trim_def dropWhile_eq_Nil_conv dropWhile_all)

lemma handleSubmit_nonblank:
  assumes "\<not> (\<forall>c \<in> set (location fd). is_white c)"
    and "callGeminiWithRetry net (prompt fd) = (io, r)"
  shows "handleSubmit net fd =
      [PreventDefault, SetLoading True, SetError None, SetGisData None, SetHoveredSite None]
      @ io
      @ [case r of Inr parsedData \<Rightarrow> SetGisData (Some parsedData)
                 | Inl err \<Rightarrow> SetError (Some (message err)),
         SetLoading False]"
proof -
  have "trim (location fd) \<noteq> []"
    using assms(1) by (simp add: trim_empty_iff)
  then show ?thesis
    using assms(2) by (simp add: handleSubmit_def split: sum.splits)
qed

lemma is_white_space: "is_white CHR '' ''"
  by (simp add: is_white_def)

lemma not_white_M: "\<not> is_white CHR ''M''"
  by (simp add: is_white_def)

lemma miami_nonblank: "\<not> (\<forall>c \<in> set (location miami_form). is_white c)"
  by (simp add: miami_form_def not_white_M)

text \<open>
  Claim C2. For every form state whose location is empty or made of whitespace only,
  \<^verbatim>\<open>handleSubmit\<close> performs no network call, sets the error to the fixed message
  \<^verbatim>\<open>Please enter a target location (City, State, or Region).\<close> and returns without
  setting the loading flag: every other piece of state is as it was.
\<close>

theorem handleSubmit_blank_location:
  assumes "\<forall>c \<in> set (location fd). is_white c"
  shows "handleSubmit net fd =
           [PreventDefault,
            SetError (Some ''Please enter a target location (City, State, or Region).'')]
       \<and> filter is_Fetch (handleSubmit net fd) = []
       \<and> SetLoading True \<notin> set (handleSubmit net fd)
       \<and> run_effects (handleSubmit net fd) s =
           s\<lparr>error := Some ''Please enter a target location (City, State, or Region).''\<rparr>"
  using assms by (simp add: handleSubmit_def trim_empty_iff run_effects_Cons run_effects_Nil)

theorem handleSubmit_blank_location_witness:
  "run_effects (handleSubmit dead_client (miami_form\<lparr>location := ''   ''\<rparr>)) initial_state =
     initial_state\<lparr>error := Some ''Please enter a target location (City, State, or Region).''\<rparr> \<and>
   filter is_Fetch (handleSubmit dead_client (miami_form\<lparr>location := ''   ''\<rparr>)) = []"
proof -
  have h: "\<forall>c \<in> set (location (miami_form\<lparr>location := ''   ''\<rparr>)). is_white c"
    by (simp add: is_white_space)
  from handleSubmit_blank_location[OF h, of dead_client initial_state]
  show ?thesis by (simp add: run_effects_Cons run_effects_Nil)
qed

text \<open>
  Claim C4. For every submission with a location that is not blank, \<^verbatim>\<open>handleSubmit\<close>
  first sets the loading flag and clears the error, the result and the hovered site, then
  calls the client; when the client returns it stores the parsed result, when the client
  throws it stores the message of the error; and after either it clears the loading flag.
\<close>

theorem handleSubmit_valid:
  assumes "\<not> (\<forall>c \<in> set (location fd). is_white c)"
  shows "let (io, r) = callGeminiWithRetry net (prompt fd);
             es = handleSubmit net fd in
           es = [PreventDefault, SetLoading True, SetError None, SetGisData None, SetHoveredSite None]
                @ io
                @ [case r of Inr parsedData \<Rightarrow> SetGisData (Some parsedData)
                           | Inl err \<Rightarrow> SetError (Some (message err)),
                   SetLoading False]
         \<and> run_effects (take 5 es) s =
             s\<lparr>loading := True, error := None, gisData := None, hoveredSite := None\<rparr>
         \<and> run_effects es s =
             (case r of
                Inr parsedData \<Rightarrow>
                  s\<lparr>loading := False, error := None, gisData := Some parsedData,
                    hoveredSite := None\<rparr>
              | Inl err \<Rightarrow>
                  s\<lparr>loading := False, error := Some (message err), gisData := None,
                    hoveredSite := None\<rparr>)"
proof -
  obtain io r where c: "callGeminiWithRetry net (prompt fd) = (io, r)"
    by (cases "callGeminiWithRetry net (prompt fd)")
  have io: "\<And>u. run_effects io u = u"
    using callGeminiWithRetry_io[of net "prompt fd"] c run_effects_io by auto
  note es = handleSubmit_nonblank[OF assms c]
  show ?thesis
    unfolding c Let_def prod.case es
    by (cases r) (simp_all add: run_effects_append run_effects_Cons run_effects_Nil io)
qed

theorem handleSubmit_valid_witness:
  "\<not> (\<forall>c \<in> set (location miami_form). is_white c) \<and>
   run_effects (take 5 (handleSubmit ok_client miami_form))
      (initial_state\<lparr>error := Some ''old'', hoveredSite := Some brickell\<rparr>) =
     initial_state\<lparr>loading := True, error := None, gisData := None, hoveredSite := None\<rparr> \<and>
   run_effects (handleSubmit ok_client miami_form)
      (initial_state\<lparr>error := Some ''old'', hoveredSite := Some brickell\<rparr>) =
     initial_state\<lparr>loading := False, error := None, gisData := Some miami_result,
       hoveredSite := None\<rparr>"
proof -
  have c: "callGeminiWithRetry ok_client (prompt miami_form) =
      ([Fetch (make_payload (prompt miami_form))], Inr miami_result)"
    by (simp add: callGeminiWithRetry_unrolled ok_client_simps ok_def)
  from handleSubmit_valid[OF miami_nonblank, of ok_client
        "initial_state\<lparr>error := Some ''old'', hoveredSite := Some brickell\<rparr>"]
  show ?thesis
    using miami_nonblank
    by (simp add: c Let_def initial_state_def run_effects_Cons run_effects_Nil)
qed

section \<open>The map renderer\<close>

lemma layer_markers_append: "layer_markers (xs @ ys) = layer_markers xs @ layer_markers ys"
  by (induction xs rule: layer_markers.induct) auto

lemma layer_markers_removeAll:
  "layer_markers (removeAll (MarkerLayer mk) ls) = removeAll mk (layer_markers ls)"
  by (induction ls rule: layer_markers.induct) auto

lemma MarkerLayer_in_layers: "MarkerLayer mk \<in> set ls \<longleftrightarrow> mk \<in> set (layer_markers ls)"
  by (induction ls rule: layer_markers.induct) auto

lemma removeAll_as_filter: "removeAll a xs = filter (\<lambda>x. x \<noteq> a) xs"
  by (induction xs) auto

text \<open>Line 59 takes every marker of the ref off the map.\<close>

lemma fold_removeLayer_markers:
  "layer_markers (layers (fold (\<lambda>mk. removeLayer (MarkerLayer mk)) mks m)) =
     filter (\<lambda>mk. mk \<notin> set mks) (layer_markers (layers m))"
proof (induction mks arbitrary: m)
  case Nil
  then show ?case by simp
next
  case (Cons a mks)
  have "layer_markers (layers (removeLayer (MarkerLayer a) m)) =
      removeAll a (layer_markers (layers m))"
    by (simp add: removeLayer_def layer_markers_removeAll)
  also have "\<dots> = filter (\<lambda>mk. mk \<noteq> a) (layer_markers (layers m))"
    by (rule removeAll_as_filter)
  finally show ?case
    using Cons[of "removeLayer (MarkerLayer a) m"] by (simp add: conj_commute)
qed

text \<open>One round of the loop of lines 76 to 83 keeps the invariant and adds the marker of the site.\<close>

lemma add_marker_ok:
  assumes "renderer_ok r" "mapInstance r \<noteq> None"
  shows "renderer_ok (add_marker st r)"
    and "mapInstance (add_marker st r) \<noteq> None"
    and "map marker_shape (markersRef (add_marker st r)) =
           map marker_shape (markersRef r) @ [marker_of_site st]"
proof -
  obtain m where m: "mapInstance r = Some m"
    using assms(2) by auto
  let ?mk = "\<lparr>marker_id = fresh r, marker_latlng = \<lparr>lat = lat st, lng = lng st\<rparr>,
               handlers = [(''mouseover'', [SetHoveredSite (Some st)]),
                           (''mouseout'', [SetHoveredSite None])]\<rparr>"
  have new: "?mk \<notin> set (markersRef r)"
    using assms(1) by (auto simp: renderer_ok_def)
  have lm: "layer_markers (layers m) = markersRef r"
    using assms(1) m by (simp add: renderer_ok_def markers_on_map_def)
  have notin: "MarkerLayer ?mk \<notin> set (layers m)"
    using new lm by (simp add: MarkerLayer_in_layers)
  show "renderer_ok (add_marker st r)"
    using assms(1) m notin lm
    by (auto simp: renderer_ok_def add_marker_def Let_def markers_on_map_def addTo_def
        layer_markers_append less_Suc_eq)
  show "mapInstance (add_marker st r) \<noteq> None"
    using m by (simp add: add_marker_def Let_def)
  show "map marker_shape (markersRef (add_marker st r)) =
           map marker_shape (markersRef r) @ [marker_of_site st]"
    by (simp add: add_marker_def Let_def marker_shape_def marker_of_site_def)
qed

lemma fold_add_marker_ok:
  "renderer_ok r \<Longrightarrow> mapInstance r \<noteq> None \<Longrightarrow>
     renderer_ok (fold add_marker sts r) \<and> mapInstance (fold add_marker sts r) \<noteq> None \<and>
     map marker_shape (markersRef (fold add_marker sts r)) =
       map marker_shape (markersRef r) @ map marker_of_site sts"
proof (induction sts arbitrary: r)
  case Nil
  then show ?case by simp
next
  case (Cons st sts)
  from Cons.IH[OF add_marker_ok(1)[OF Cons.prems] add_marker_ok(2)[OF Cons.prems], of st]
  show ?case by (simp add: add_marker_ok(3)[OF Cons.prems])
qed

lemma new_map_markers: "layer_markers (layers new_map) = []"
  by (simp add: new_map_def addTo_def setView_def)

text \<open>Without a result the effect creates the map if there is none, and touches no marker.\<close>

lemma realMap_effect_None:
  assumes "renderer_ok r"
  shows "renderer_ok (realMap_effect True None r)"
    and "markersRef (realMap_effect True None r) = markersRef r"
  using assms
  by (auto simp: realMap_effect_def renderer_ok_def markers_on_map_def new_map_markers
           split: option.splits)

text \<open>With a result the effect leaves one marker per site, in the order of the sites.\<close>

lemma realMap_effect_Some:
  assumes "renderer_ok r"
  shows "renderer_ok (realMap_effect True (Some d) r)"
    and "map marker_shape (markersRef (realMap_effect True (Some d) r)) =
           map marker_of_site (sites d)"
proof -
  define r1 where
    "r1 = (case mapInstance r of None \<Rightarrow> r\<lparr>mapInstance := Some new_map\<rparr> | Some m \<Rightarrow> r)"
  have ok1: "renderer_ok r1"
    using assms
    by (auto simp: r1_def renderer_ok_def markers_on_map_def new_map_markers split: option.splits)
  obtain m where m: "mapInstance r1 = Some m"
    by (cases "mapInstance r") (auto simp: r1_def)
  define m2 where
    "m2 = fold (\<lambda>mk. removeLayer (MarkerLayer mk)) (markersRef r1) (flyTo (cityCenter d) 13 m)"
  define r2 where "r2 = r1\<lparr>mapInstance := Some m2, markersRef := []\<rparr>"
  have lm: "layer_markers (layers m) = markersRef r1"
    using ok1 m by (simp add: renderer_ok_def markers_on_map_def)
  have "layer_markers (layers m2) = []"
    unfolding m2_def fold_removeLayer_markers by (simp add: flyTo_def lm)
  then have ok2: "renderer_ok r2" and some2: "mapInstance r2 \<noteq> None"
    and ref2: "markersRef r2 = []"
    by (simp_all add: r2_def renderer_ok_def markers_on_map_def)
  have eff: "realMap_effect True (Some d) r = fold add_marker (sites d) r2"
    using m by (simp add: realMap_effect_def r1_def[symmetric] Let_def r2_def m2_def)
  from fold_add_marker_ok[OF ok2 some2, of "sites d"]
  show "renderer_ok (realMap_effect True (Some d) r)"
    and "map marker_shape (markersRef (realMap_effect True (Some d) r)) =
           map marker_of_site (sites d)"
    by (simp_all add: eff ref2)
qed

lemma current_result_snoc: "current_result (gs @ [g]) = g"
  by (simp add: current_result_def)

lemma latest_result_snoc:
  "latest_result (gs @ [g]) = (case g of None \<Rightarrow> latest_result gs | Some d \<Rightarrow> Some d)"
  by (cases g) (simp_all add: latest_result_def current_result_def)

lemma current_is_latest: "current_result gs = Some d \<Longrightarrow> latest_result gs = Some d"
  by (cases gs rule: rev_cases) (simp_all add: current_result_def latest_result_snoc)

lemma render_all_snoc: "render_all (gs @ [g]) = realMap_effect True g (render_all gs)"
  by (simp add: render_all_def)

lemma render_all_ok:
  "renderer_ok (render_all gs) \<and>
   map marker_shape (markersRef (render_all gs)) = map marker_of_site (sites_of (latest_result gs))"
proof (induction gs rule: rev_induct)
  case Nil
  then show ?case
    by (simp add: render_all_def initial_realmap_def renderer_ok_def markers_on_map_def
        latest_result_def current_result_def sites_of_def)
next
  case (snoc g gs)
  show ?case
  proof (cases g)
    case None
    with snoc realMap_effect_None[of "render_all gs"] show ?thesis
      by (simp add: render_all_snoc latest_result_snoc)
  next
    case (Some d)
    with snoc realMap_effect_Some[of "render_all gs" d] show ?thesis
      by (simp add: render_all_snoc latest_result_snoc sites_of_def)
  qed
qed

lemma markers_reflect_latest: "markers_reflect (render_all gs) (latest_result gs)"
  using render_all_ok[of gs] by (simp add: markers_reflect_def renderer_ok_def)

text \<open>
  Claim C3, as the code has it. For every sequence of values of \<^verbatim>\<open>gisData\<close>, once the
  effect has run for each of them, the markers on the map are the markers of the ref, one
  per site of the latest result that was not null, in the order of its sites, and none if
  there was no such result. So whenever the current result is a result with K sites the
  renderer holds exactly K markers, with nothing left over from an earlier result. While
  the current result is null the effect touches no marker: the markers of the latest
  result stay on the map.
\<close>

theorem markers_follow_latest_result:
  "markers_reflect (render_all gs) (latest_result gs) \<and>
   length (markers_on_map (render_all gs)) = length (sites_of (latest_result gs)) \<and>
   (\<forall>d. current_result gs = Some d \<longrightarrow>
      markers_reflect (render_all gs) (current_result gs) \<and>
      length (markers_on_map (render_all gs)) = length (sites d)) \<and>
   markers_on_map (render_all (gs @ [None])) = markers_on_map (render_all gs)"
proof -
  have refl: "markers_reflect (render_all gs) (latest_result gs)"
    by (rule markers_reflect_latest)
  then have len: "length (markers_on_map (render_all gs)) = length (sites_of (latest_result gs))"
    unfolding markers_reflect_def by (metis length_map)
  have keep: "markers_on_map (render_all (gs @ [None])) = markers_on_map (render_all gs)"
    using render_all_ok[of gs] render_all_ok[of "gs @ [None]"]
      realMap_effect_None(2)[of "render_all gs"]
    by (simp add: renderer_ok_def render_all_snoc)
  show ?thesis
    using refl len current_is_latest keep by (auto simp: sites_of_def)
qed

text \<open>A result with two sites, then null, then a result with one site: one marker.\<close>

theorem markers_follow_latest_result_witness:
  "current_result [Some miami_result, None, Some (miami_result\<lparr>sites := [wynwood]\<rparr>)]
     = Some (miami_result\<lparr>sites := [wynwood]\<rparr>) \<and>
   length (markers_on_map
     (render_all [Some miami_result, None, Some (miami_result\<lparr>sites := [wynwood]\<rparr>)])) = 1"
  using markers_follow_latest_result
          [of "[Some miami_result, None, Some (miami_result\<lparr>sites := [wynwood]\<rparr>)]"]
  by (simp add: current_result_def)

text \<open>
  Claim C3, as it is stated, fails when the current result is null: after a result with
  two sites and then null (a new submission has cleared the result), the two markers are
  still on the map, where the claim asks for none.
\<close>

theorem stale_markers_counterexample:
  "\<not> markers_reflect (render_all [Some miami_result, None])
       (current_result [Some miami_result, None])"
proof
  let ?r = "render_all [Some miami_result, None]"
  assume a: "markers_reflect ?r (current_result [Some miami_result, None])"
  have l: "latest_result [Some miami_result, None] = Some miami_result"
    by (simp add: latest_result_def current_result_def)
  have "markers_reflect ?r (Some miami_result)"
    using markers_reflect_latest[of "[Some miami_result, None]"] by (simp only: l)
  then have "map marker_shape (markersRef ?r) = map marker_of_site [brickell, wynwood]"
    by (simp add: markers_reflect_def sites_of_def miami_result_def)
  moreover from a have "map marker_shape (markersRef ?r) = []"
    by (simp add: markers_reflect_def current_result_def sites_of_def)
  ultimately show False by simp
qed

lemma fire_marker_of_site:
  assumes "marker_shape mk = marker_of_site st"
  shows "fire ''mouseover'' mk = [SetHoveredSite (Some st)]"
    and "fire ''mouseout'' mk = [SetHoveredSite None]"
    and "marker_latlng mk = \<lparr>lat = lat st, lng = lng st\<rparr>"
  using assms by (simp_all add: marker_shape_def marker_of_site_def fire_def)

text \<open>
  Claim C8. For every marker the renderer has placed, the marker stands for a site of the
  latest result; a pointer-enter (\<^verbatim>\<open>mouseover\<close>) event on it sets the hovered site to
  exactly that site, and a pointer-leave (\<^verbatim>\<open>mouseout\<close>) event sets the hovered site to
  null. Nothing else of the state changes.
\<close>

theorem marker_pointer_events:
  assumes "i < length (markers_on_map (render_all gs))"
  shows "\<exists>d. latest_result gs = Some d \<and> i < length (sites d) \<and>
           (let mk = markers_on_map (render_all gs) ! i; st = sites d ! i in
              marker_latlng mk = \<lparr>lat = lat st, lng = lng st\<rparr> \<and>
              fire ''mouseover'' mk = [SetHoveredSite (Some st)] \<and>
              fire ''mouseout'' mk = [SetHoveredSite None] \<and>
              run_effects (fire ''mouseover'' mk) s = s\<lparr>hoveredSite := Some st\<rparr> \<and>
              run_effects (fire ''mouseout'' mk) s = s\<lparr>hoveredSite := None\<rparr>)"
proof -
  let ?r = "render_all gs"
  have refl: "markers_reflect ?r (latest_result gs)"
    by (rule markers_reflect_latest)
  then have on_map: "markers_on_map ?r = markersRef ?r"
    and shapes: "map marker_shape (markersRef ?r) = map marker_of_site (sites_of (latest_result gs))"
    by (simp_all add: markers_reflect_def)
  from shapes have len: "length (markersRef ?r) = length (sites_of (latest_result gs))"
    by (metis length_map)
  with assms on_map have i: "i < length (sites_of (latest_result gs))"
    by simp
  then obtain d where d: "latest_result gs = Some d"
    by (cases "latest_result gs") (simp_all add: sites_of_def)
  with i have id: "i < length (sites d)"
    by (simp add: sites_of_def)
  have "map marker_shape (markersRef ?r) ! i = map marker_of_site (sites d) ! i"
    using shapes d by (simp add: sites_of_def)
  then have sh: "marker_shape (markers_on_map ?r ! i) = marker_of_site (sites d ! i)"
    using id len d on_map by (simp add: sites_of_def)
  show ?thesis
    using d id fire_marker_of_site[OF sh]
    by (simp add: Let_def run_effects_Cons run_effects_Nil)
qed

theorem marker_pointer_events_witness:
  "run_effects (fire ''mouseover'' (markers_on_map (render_all [Some miami_result]) ! 1))
      initial_state = initial_state\<lparr>hoveredSite := Some wynwood\<rparr> \<and>
   run_effects (fire ''mouseout'' (markers_on_map (render_all [Some miami_result]) ! 1))
      (initial_state\<lparr>hoveredSite := Some wynwood\<rparr>) = initial_state"
proof -
  have l: "latest_result [Some miami_result] = Some miami_result"
    by (simp add: latest_result_def current_result_def)
  have "length (markers_on_map (render_all [Some miami_result])) = length (sites miami_result)"
    using markers_reflect_latest[of "[Some miami_result]"]
    unfolding l markers_reflect_def sites_of_def by (metis length_map option.simps(5))
  then have h: "1 < length (markers_on_map (render_all [Some miami_result]))"
    by (simp add: miami_result_def)
  let ?mk = "markers_on_map (render_all [Some miami_result]) ! 1"
  from marker_pointer_events[OF h, of initial_state]
  have a: "run_effects (fire ''mouseover'' ?mk) initial_state =
      initial_state\<lparr>hoveredSite := Some (sites miami_result ! 1)\<rparr>"
    by (simp add: l Let_def run_effects_Cons run_effects_Nil)
  from marker_pointer_events[OF h, of "initial_state\<lparr>hoveredSite := Some wynwood\<rparr>"]
  have b: "run_effects (fire ''mouseout'' ?mk) (initial_state\<lparr>hoveredSite := Some wynwood\<rparr>) =
      initial_state\<lparr>hoveredSite := Some wynwood, hoveredSite := None\<rparr>"
    by (simp add: l Let_def run_effects_Cons run_effects_Nil)
  show ?thesis
    using a b by (simp add: miami_result_def initial_state_def)
qed

section \<open>The two simulated clients of the specification\<close>

text \<open>
  Claim C5. For a client whose first two attempts throw and whose third attempt returns a
  result, a submission with a location that is not blank ends in the success state: the
  result is stored by exactly one setter call, the error is null, the loading flag is
  cleared, and the client made exactly three attempts with exactly two waits between
  them, of 500 ms and then of 1000 ms.
\<close>

theorem fails_twice_then_succeeds:
  assumes "\<not> (\<forall>c \<in> set (location fd). is_white c)"
    and "thrown_error (net 0)" and "thrown_error (net 1)"
    and "net 2 = Response status (Parsed d)" and "ok status"
  shows "let es = handleSubmit net fd; s' = run_effects es s; p = make_payload (prompt fd) in
           gisData s' = Some d \<and> error s' = None \<and> loading s' = False \<and>
           filter stores_result es = [SetGisData (Some d)] \<and>
           filter (\<lambda>e. is_Fetch e \<or> is_Sleep e) es =
             [Fetch p, Sleep 500, Fetch p, Sleep 1000, Fetch p]"
proof -
  obtain e0 e1 where a: "attempt (net 0) = Inl e0" "attempt (net 1) = Inl e1"
    using assms(2,3) attempt_throws_iff[of "net 0"] attempt_throws_iff[of "net 1"]
    by (cases "attempt (net 0)"; cases "attempt (net 1)"; simp)
  have a2: "attempt (net 2) = Inr d"
    using assms(4,5) by simp
  let ?p = "make_payload (prompt fd)"
  have c: "callGeminiWithRetry net (prompt fd) =
      ([Fetch ?p, Sleep 500, Fetch ?p, Sleep 1000, Fetch ?p], Inr d)"
    unfolding callGeminiWithRetry_unrolled Let_def a a2 by simp
  show ?thesis
    unfolding Let_def handleSubmit_nonblank[OF assms(1) c]
    by (simp add: run_effects_Cons run_effects_Nil)
qed

theorem fails_twice_then_succeeds_witness:
  "gisData (run_effects (handleSubmit flaky_client miami_form) initial_state) = Some miami_result \<and>
   error (run_effects (handleSubmit flaky_client miami_form) initial_state) = None \<and>
   loading (run_effects (handleSubmit flaky_client miami_form) initial_state) = False \<and>
   filter stores_result (handleSubmit flaky_client miami_form) = [SetGisData (Some miami_result)] \<and>
   filter (\<lambda>e. is_Fetch e \<or> is_Sleep e) (handleSubmit flaky_client miami_form) =
     [Fetch (make_payload (prompt miami_form)), Sleep 500,
      Fetch (make_payload (prompt miami_form)), Sleep 1000,
      Fetch (make_payload (prompt miami_form))]"
proof -
  have t: "thrown_error (flaky_client 0)" "thrown_error (flaky_client 1)"
    by (simp_all add: thrown_error_def flaky_client_simps)
  have k: "ok 200"
    by (simp add: ok_def)
  from fails_twice_then_succeeds[OF miami_nonblank t flaky_client_simps(4) k, of initial_state]
  show ?thesis
    by (simp add: Let_def)
qed

text \<open>
  Claim C6. For a client whose three attempts all throw, a submission with a location
  that is not blank ends with the error equal to the generic message
  \<^verbatim>\<open>Failed to connect to AI. Please try again.\<close>, the result null and the loading flag
  cleared.
\<close>

theorem fails_three_times:
  assumes "\<not> (\<forall>c \<in> set (location fd). is_white c)"
    and "thrown_error (net 0)" and "thrown_error (net 1)" and "thrown_error (net 2)"
  shows "let s' = run_effects (handleSubmit net fd) s in
           error s' = Some ''Failed to connect to AI. Please try again.'' \<and>
           gisData s' = None \<and> loading s' = False"
proof -
  obtain e0 e1 e2 where a:
    "attempt (net 0) = Inl e0" "attempt (net 1) = Inl e1" "attempt (net 2) = Inl e2"
    using assms(2,3,4) attempt_throws_iff[of "net 0"] attempt_throws_iff[of "net 1"]
      attempt_throws_iff[of "net 2"]
    by (cases "attempt (net 0)"; cases "attempt (net 1)"; cases "attempt (net 2)"; simp)
  let ?p = "make_payload (prompt fd)"
  have c: "callGeminiWithRetry net (prompt fd) =
      ([Fetch ?p, Sleep 500, Fetch ?p, Sleep 1000, Fetch ?p],
       Inl (JsError ''Failed to connect to AI. Please try again.''))"
    unfolding callGeminiWithRetry_unrolled Let_def a by simp
  show ?thesis
    unfolding Let_def handleSubmit_nonblank[OF assms(1) c]
    by (simp add: run_effects_Cons run_effects_Nil)
qed

theorem fails_three_times_witness:
  "error (run_effects (handleSubmit dead_client miami_form)
            (initial_state\<lparr>gisData := Some miami_result\<rparr>)) =
     Some ''Failed to connect to AI. Please try again.'' \<and>
   gisData (run_effects (handleSubmit dead_client miami_form)
            (initial_state\<lparr>gisData := Some miami_result\<rparr>)) = None \<and>
   loading (run_effects (handleSubmit dead_client miami_form)
            (initial_state\<lparr>gisData := Some miami_result\<rparr>)) = False"
proof -
  have t: "thrown_error (dead_client 0)" "thrown_error (dead_client 1)" "thrown_error (dead_client 2)"
    by (simp_all add: thrown_error_def dead_client_simps)
  from fails_three_times[OF miami_nonblank t, of "initial_state\<lparr>gisData := Some miami_result\<rparr>"]
  show ?thesis
    by (simp add: Let_def)
qed

section \<open>The prompt\<close>

lemma sublist_skip: "sublist xs zs \<Longrightarrow> sublist xs (ys @ zs)"
  by (metis append_Nil2 sublist_appendI sublist_order.order.trans)

lemma sublist_here: "sublist (a @ b @ c) (a @ b @ c @ r)"
  by (metis append.assoc sublist_append_rightI)

text \<open>What the template puts into the prompt for each of the five fields.\<close>

lemma prompt_embeds:
  "sublist (location fd) (prompt fd)"
  "sublist (''      - Demographics / Area Type: '' @ replace ''-'' '' '' (demographics fd) @ ''\<newline>'') (prompt fd)"
  "sublist (''      - Traffic Profile: '' @ replace ''-'' '' '' (traffic fd) @ ''\<newline>'') (prompt fd)"
  "sublist (''      - Nearby Amenities: '' @ replace ''-'' '' '' (amenities fd) @ ''\<newline>'') (prompt fd)"
  "sublist (''      - Expected Scale/Budget: '' @ budget fd @ ''\<newline>'') (prompt fd)"
proof -
  show "sublist (''      - Demographics / Area Type: '' @ replace ''-'' '' '' (demographics fd) @ ''\<newline>'') (prompt fd)"
    unfolding prompt_def by (rule sublist_here | rule sublist_skip)+
  show "sublist (''      - Traffic Profile: '' @ replace ''-'' '' '' (traffic fd) @ ''\<newline>'') (prompt fd)"
    unfolding prompt_def by (rule sublist_here | rule sublist_skip)+
  show "sublist (''      - Nearby Amenities: '' @ replace ''-'' '' '' (amenities fd) @ ''\<newline>'') (prompt fd)"
    unfolding prompt_def by (rule sublist_here | rule sublist_skip)+
  show "sublist (''      - Expected Scale/Budget: '' @ budget fd @ ''\<newline>'') (prompt fd)"
    unfolding prompt_def by (rule sublist_here | rule sublist_skip)+
  show "sublist (location fd) (prompt fd)"
    unfolding prompt_def by (rule sublist_append_rightI | rule sublist_skip)+
qed

text \<open>The example of the specification: the five values, in readable form, are in the prompt.\<close>

lemma prompt_miami_form:
  "sublist ''Miami, FL'' (prompt miami_form)"
  "sublist ''urban dense'' (prompt miami_form)"
  "sublist ''highway adjacent'' (prompt miami_form)"
  "sublist ''retail'' (prompt miami_form)"
  "sublist ''medium'' (prompt miami_form)"
  by code_simp+

text \<open>
  Claim C7 asks that the prompt embed every parameter value in hyphen-stripped, readable
  form. \<^verbatim>\<open>replace('-', ' ')\<close> replaces the first hyphen only, so the option
  \<^verbatim>\<open>ride-share-hub\<close> of the traffic select (line 288) reaches the prompt as
  \<^verbatim>\<open>ride share-hub\<close>: neither the value nor its hyphen-stripped form is in the prompt.
\<close>

theorem prompt_ride_share_hub:
  "sublist ''      - Traffic Profile: ride share-hub\<newline>''
     (prompt (miami_form\<lparr>traffic := ''ride-share-hub''\<rparr>)) \<and>
   \<not> sublist ''ride share hub'' (prompt (miami_form\<lparr>traffic := ''ride-share-hub''\<rparr>)) \<and>
   \<not> sublist ''ride-share-hub'' (prompt (miami_form\<lparr>traffic := ''ride-share-hub''\<rparr>))"
  by code_simp

section \<open>Reachable states\<close>

lemma apply_effect_formData: "formData (apply_effect e s) = formData s"
  by (cases e) simp_all

lemma run_effects_formData: "formData (run_effects es s) = formData s"
  by (induction es arbitrary: s) (simp_all add: run_effects_Nil run_effects_Cons apply_effect_formData)

text \<open>No control is called \<^verbatim>\<open>budget\<close>, so no change event writes that field.\<close>

lemma handleInputChange_keeps_budget:
  "budget (formData (handleInputChange (control_name c) v s)) = budget (formData s)"
  by (cases c) (simp_all add: handleInputChange_def)

lemma reachable_budget: "reachable w \<Longrightarrow> budget (formData (ui w)) = ''medium''"
proof (induction rule: reachable.induct)
  case init
  show ?case
    by (simp add: initial_world_def initial_state_def initial_formData_def)
next
  case (change w c v)
  then show ?case
    by (simp add: handleInputChange_keeps_budget)
next
  case (advance w e es)
  then show ?case
    by (simp add: apply_effect_formData)
next
  case (pointer_enter w mk)
  then show ?case
    by (simp add: run_effects_formData)
next
  case (pointer_leave w mk)
  then show ?case
    by (simp add: run_effects_formData)
qed simp_all

lemma handleSubmit_fetches:
  assumes "Fetch p \<in> set (handleSubmit net fd)"
  shows "p = make_payload (prompt fd)"
proof (cases "\<forall>c \<in> set (location fd). is_white c")
  case True
  with assms show ?thesis
    by (simp add: handleSubmit_def trim_empty_iff)
next
  case False
  obtain io r where c: "callGeminiWithRetry net (prompt fd) = (io, r)"
    by (cases "callGeminiWithRetry net (prompt fd)")
  from assms have "Fetch p \<in> set io"
    unfolding handleSubmit_nonblank[OF False c] by (auto split: sum.splits)
  with callGeminiWithRetry_io[of net "prompt fd"] c show ?thesis
    by auto
qed

text \<open>
  Claim C10. In every reachable state the budget of the form is its initial value
  \<^verbatim>\<open>medium\<close>: a change event of any of the four controls leaves it as it is, and no
  other step writes the form. So every prompt that \<^verbatim>\<open>handleSubmit\<close> builds and sends
  contains the line \<^verbatim>\<open>- Expected Scale/Budget: medium\<close>.
\<close>

theorem budget_stays_medium:
  assumes "reachable w"
  shows "budget (formData (ui w)) = ''medium'' \<and>
         (\<forall>c v. budget (formData (handleInputChange (control_name c) v (ui w))) = ''medium'') \<and>
         sublist ''      - Expected Scale/Budget: medium\<newline>'' (prompt (formData (ui w))) \<and>
         (\<forall>net p. Fetch p \<in> set (handleSubmit net (formData (ui w))) \<longrightarrow>
            sublist ''      - Expected Scale/Budget: medium\<newline>'' (contents_text p))"
proof -
  have b: "budget (formData (ui w)) = ''medium''"
    using assms by (rule reachable_budget)
  have line: "sublist ''      - Expected Scale/Budget: medium\<newline>'' (prompt (formData (ui w)))"
    using prompt_embeds(5)[of "formData (ui w)"] by (simp add: b)
  have "sublist ''      - Expected Scale/Budget: medium\<newline>'' (contents_text p)"
    if "Fetch p \<in> set (handleSubmit net (formData (ui w)))" for net p
    using handleSubmit_fetches[OF that] line by (simp add: make_payload_def)
  then show ?thesis
    using b line by (simp add: handleInputChange_keeps_budget)
qed

theorem budget_stays_medium_witness:
  "budget (formData (handleInputChange ''location'' ''Miami, FL'' initial_state)) = ''medium'' \<and>
   sublist ''      - Expected Scale/Budget: medium\<newline>''
     (prompt (formData (handleInputChange ''location'' ''Miami, FL'' initial_state)))"
proof -
  have "reachable (initial_world\<lparr>ui := handleInputChange (control_name LocationInput) ''Miami, FL''
      (ui initial_world)\<rparr>)"
    by (rule reachable.change[OF reachable.init])
  from budget_stays_medium[OF this] show ?thesis
    by (simp add: initial_world_def)
qed

lemma reachable_drain:
  "reachable w \<Longrightarrow> reachable (w\<lparr>ui := run_effects (inflight w) (ui w), inflight := []\<rparr>)"
proof (induction "inflight w" arbitrary: w)
  case Nil
  then have "w\<lparr>ui := run_effects (inflight w) (ui w), inflight := []\<rparr> = w"
    by (simp add: run_effects_Nil)
  with Nil show ?case by simp
next
  case (Cons e es)
  let ?w = "w\<lparr>ui := apply_effect e (ui w), inflight := es\<rparr>"
  have r: "reachable ?w"
    using Cons.prems Cons.hyps(2)[symmetric] by (rule reachable.advance)
  have "es = inflight ?w" by simp
  from Cons.hyps(1)[OF this r] show ?case
    using Cons.hyps(2)[symmetric] by (simp add: run_effects_Cons)
qed

lemma reachable_submitted:
  assumes "reachable w" "\<not> loading (ui w)" "inflight w = []"
  shows "reachable (w\<lparr>ui := run_effects (handleSubmit net (formData (ui w))) (ui w)\<rparr>)"
proof -
  have "reachable (w\<lparr>inflight := handleSubmit net (formData (ui w))\<rparr>)"
    using assms by (rule reachable.submit)
  from reachable_drain[OF this]
  have "reachable (w\<lparr>ui := run_effects (handleSubmit net (formData (ui w))) (ui w),
      inflight := []\<rparr>)"
    by simp
  moreover have "w\<lparr>ui := run_effects (handleSubmit net (formData (ui w))) (ui w),
      inflight := []\<rparr> = w\<lparr>ui := run_effects (handleSubmit net (formData (ui w))) (ui w)\<rparr>"
    using assms(3) by (cases w) simp
  ultimately show ?thesis by simp
qed

section \<open>The overlays\<close>

lemma keeps_exclusive_now: "keeps_exclusive l h g es \<Longrightarrow> l \<or> \<not> h \<or> g"
  by (cases es) simp_all

lemma keeps_exclusive_mono: "keeps_exclusive l True g es \<Longrightarrow> keeps_exclusive l h g es"
  by (induction es arbitrary: l h g) (auto simp: Let_def split: effect.splits)

lemma keeps_exclusive_leave: "keeps_exclusive l h g es \<Longrightarrow> keeps_exclusive l False g es"
  by (cases h) (auto dest: keeps_exclusive_mono)

lemma keeps_exclusive_enter:
  "\<not> l \<Longrightarrow> g \<Longrightarrow> keeps_exclusive l h g es \<Longrightarrow> keeps_exclusive l True g es"
  by (cases es) (auto simp: Let_def split: effect.splits)

lemma keeps_exclusive_io:
  "set io \<subseteq> {Fetch p, Sleep a, Sleep b} \<Longrightarrow>
     keeps_exclusive True h g (io @ es) = keeps_exclusive True h g es"
  by (induction io) (auto simp: Let_def)

lemma keeps_exclusive_drop: "keeps_exclusive l (h \<or> x) g es \<Longrightarrow> keeps_exclusive l h g es"
  by (cases h; cases x) (auto dest: keeps_exclusive_mono)

text \<open>One effect of the running submission.\<close>

lemma keeps_exclusive_step:
  "keeps_exclusive l h g (e # es) \<Longrightarrow>
     keeps_exclusive (case e of SetLoading b \<Rightarrow> b | _ \<Rightarrow> l)
       (case e of SetHoveredSite x \<Rightarrow> x \<noteq> None | _ \<Rightarrow> h)
       (case e of SetGisData x \<Rightarrow> x \<noteq> None | _ \<Rightarrow> g) es"
  by (cases e) (auto simp: Let_def dest: keeps_exclusive_drop)

lemma keeps_exclusive_advance:
  assumes "keeps_exclusive (loading s) (hoveredSite s \<noteq> None) (gisData s \<noteq> None) (e # es)"
  shows "keeps_exclusive (loading (apply_effect e s)) (hoveredSite (apply_effect e s) \<noteq> None)
           (gisData (apply_effect e s) \<noteq> None) es"
  using keeps_exclusive_step[OF assms] by (cases e) simp_all

text \<open>A submission starts in a state with at most one overlay and keeps it so to its end.\<close>

lemma handleSubmit_keeps_exclusive:
  assumes "\<not> h \<or> g"
  shows "keeps_exclusive False h g (handleSubmit net fd)"
proof (cases "\<forall>c \<in> set (location fd). is_white c")
  case True
  with assms show ?thesis
    by (auto simp: handleSubmit_def trim_empty_iff Let_def)
next
  case False
  obtain io r where c: "callGeminiWithRetry net (prompt fd) = (io, r)"
    by (cases "callGeminiWithRetry net (prompt fd)")
  have io: "set io \<subseteq> {Fetch (make_payload (prompt fd)), Sleep 500, Sleep 1000}"
    using callGeminiWithRetry_io[of net "prompt fd"] c by simp
  show ?thesis
    unfolding handleSubmit_nonblank[OF False c]
    using assms by (cases r) (auto simp: Let_def keeps_exclusive_io[OF io])
qed

text \<open>The renderer of a reachable world has run the effect for some values of \<^verbatim>\<open>gisData\<close>.\<close>

lemma reachable_rmap: "reachable w \<Longrightarrow> \<exists>gs. rmap w = render_all gs"
proof (induction rule: reachable.induct)
  case init
  have "rmap initial_world = render_all []"
    by (simp add: initial_world_def render_all_def)
  then show ?case by blast
next
  case (render w)
  then obtain gs where "rmap w = render_all gs" by blast
  then have "rmap (w\<lparr>rmap := realMap_effect True (gisData (ui w)) (rmap w)\<rparr>) =
      render_all (gs @ [gisData (ui w)])"
    by (simp add: render_all_snoc)
  then show ?case by blast
qed simp_all

lemma fire_on_map:
  assumes "reachable w" "mk \<in> set (markers_on_map (rmap w))"
  shows "\<exists>st. fire ''mouseover'' mk = [SetHoveredSite (Some st)]"
    and "fire ''mouseout'' mk = [SetHoveredSite None]"
proof -
  obtain gs where gs: "rmap w = render_all gs"
    using reachable_rmap[OF assms(1)] by blast
  have "markers_reflect (render_all gs) (latest_result gs)"
    by (rule markers_reflect_latest)
  then have "marker_shape mk \<in> set (map marker_of_site (sites_of (latest_result gs)))"
    using assms(2) gs unfolding markers_reflect_def by (metis image_eqI set_map)
  then obtain st where sh: "marker_shape mk = marker_of_site st"
    by auto
  show "\<exists>st. fire ''mouseover'' mk = [SetHoveredSite (Some st)]"
    using fire_marker_of_site(1)[OF sh] by blast
  show "fire ''mouseout'' mk = [SetHoveredSite None]"
    by (rule fire_marker_of_site(2)[OF sh])
qed

lemma reachable_keeps_exclusive:
  "reachable w \<Longrightarrow>
     keeps_exclusive (loading (ui w)) (hoveredSite (ui w) \<noteq> None) (gisData (ui w) \<noteq> None)
       (inflight w)"
proof (induction rule: reachable.induct)
  case init
  show ?case
    by (simp add: initial_world_def initial_state_def)
next
  case (change w c v)
  then show ?case
    by (simp add: handleInputChange_def)
next
  case (submit w net)
  from keeps_exclusive_now[OF submit.IH] submit.hyps(2)
  have "\<not> hoveredSite (ui w) \<noteq> None \<or> gisData (ui w) \<noteq> None"
    by blast
  from handleSubmit_keeps_exclusive[OF this] submit.hyps(2) show ?case
    by simp
next
  case (advance w e es)
  from advance.IH advance.hyps(2) keeps_exclusive_advance[of "ui w" e es] show ?case
    by simp
next
  case (render w)
  then show ?case by simp
next
  case (pointer_enter w mk)
  obtain st where "fire ''mouseover'' mk = [SetHoveredSite (Some st)]"
    using fire_on_map(1)[OF pointer_enter.hyps(1,2)] by blast
  moreover have "\<not> loading (ui w)" "gisData (ui w) \<noteq> None"
    using pointer_enter.hyps(3) by (auto simp: map_uncovered_def overlays_def split: if_splits)
  ultimately show ?case
    using keeps_exclusive_enter[OF _ _ pointer_enter.IH]
    by (simp add: run_effects_Cons run_effects_Nil)
next
  case (pointer_leave w mk)
  from fire_on_map(2)[OF pointer_leave.hyps(1,2)] keeps_exclusive_leave[OF pointer_leave.IH]
  show ?case
    by (simp add: run_effects_Cons run_effects_Nil)
qed

text \<open>
  Claim C9. In every reachable state at most one overlay is rendered over the map area,
  and which one is a function of the loading flag, the result and the hovered site alone:
  the spinner while loading; else the placeholder while there is no result; else the
  hover card while a site is hovered; else none, the bare map. The three conditions of
  the source (lines 345, 354 and 387) do not exclude each other by themselves: the hover
  card and the placeholder exclude each other because a site gets hovered only through a
  marker, under the pointer, while the map is uncovered, and every submission clears the
  hovered site together with the result.
\<close>

theorem overlays_exclusive:
  assumes "reachable w"
  shows "length (overlays (ui w)) \<le> 1 \<and>
         overlays (ui w) =
           (if loading (ui w) then [LoadingOverlay]
            else if gisData (ui w) = None then [Placeholder]
            else if hoveredSite (ui w) \<noteq> None then [HoverCard]
            else []) \<and>
         overlays ((ui w)\<lparr>formData := f, error := e\<rparr>) = overlays (ui w)"
  using keeps_exclusive_now[OF reachable_keeps_exclusive[OF assms]]
  by (auto simp: overlays_def)

text \<open>
  The theorem at the first state, and at the state after a location was typed, a
  submission succeeded, the markers were placed and the pointer entered the first marker.
\<close>

theorem overlays_exclusive_witness:
  "overlays initial_state = [Placeholder] \<and>
   overlays
     (run_effects (fire ''mouseover'' (markers_on_map (render_all [Some miami_result]) ! 0))
        (run_effects (handleSubmit ok_client miami_form)
           (handleInputChange ''location'' ''Miami, FL'' initial_state))) = [HoverCard]"
proof -
  have u0: "ui initial_world = initial_state"
    by (simp add: initial_world_def)
  from overlays_exclusive[OF reachable.init, where f = initial_formData and e = None]
  have first: "overlays initial_state = [Placeholder]"
    unfolding u0 by (simp add: initial_state_def)
  define w1 where "w1 = initial_world\<lparr>ui := handleInputChange (control_name LocationInput)
      ''Miami, FL'' (ui initial_world)\<rparr>"
  have r1: "reachable w1"
    unfolding w1_def by (rule reachable.change[OF reachable.init])
  have ui1: "ui w1 = handleInputChange ''location'' ''Miami, FL'' initial_state"
    by (simp add: w1_def initial_world_def)
  have fd1: "formData (ui w1) = miami_form"
    by (simp add: ui1 initial_state_def initial_formData_def handleInputChange_def miami_form_def)
  have c1: "callGeminiWithRetry ok_client (prompt miami_form) =
      ([Fetch (make_payload (prompt miami_form))], Inr miami_result)"
    by (simp add: callGeminiWithRetry_unrolled ok_client_simps ok_def)
  define w2 where "w2 = w1\<lparr>ui := run_effects (handleSubmit ok_client (formData (ui w1))) (ui w1)\<rparr>"
  have r2: "reachable w2"
    unfolding w2_def
    by (rule reachable_submitted[OF r1])
       (simp_all add: w1_def initial_world_def initial_state_def handleInputChange_def)
  have ui2: "ui w2 = run_effects (handleSubmit ok_client miami_form)
      (handleInputChange ''location'' ''Miami, FL'' initial_state)"
  proof -
    have "ui w2 = run_effects (handleSubmit ok_client (formData (ui w1))) (ui w1)"
      by (simp add: w2_def)
    then have "ui w2 = run_effects (handleSubmit ok_client miami_form) (ui w1)"
      by (simp only: fd1)
    then show ?thesis
      by (simp only: ui1)
  qed
  have st2: "ui w2 = \<lparr>formData = miami_form, loading = False, gisData = Some miami_result,
      error = None, hoveredSite = None\<rparr>"
    unfolding ui2 handleSubmit_nonblank[OF miami_nonblank c1]
    by (simp add: run_effects_Cons run_effects_Nil initial_state_def
        handleInputChange_def initial_formData_def miami_form_def)
  have rmap2: "rmap w2 = initial_realmap"
    by (simp add: w2_def w1_def initial_world_def)
  define w3 where "w3 = w2\<lparr>rmap := realMap_effect True (gisData (ui w2)) (rmap w2)\<rparr>"
  have r3: "reachable w3"
    unfolding w3_def by (rule reachable.render[OF r2])
  have rmap3: "rmap w3 = render_all [Some miami_result]"
    by (simp add: w3_def st2 rmap2 render_all_def)
  have ui3: "ui w3 = ui w2"
    by (simp add: w3_def)
  have l: "latest_result [Some miami_result] = Some miami_result"
    by (simp add: latest_result_def current_result_def)
  have "markers_reflect (render_all [Some miami_result]) (Some miami_result)"
    using markers_reflect_latest[of "[Some miami_result]"] by (simp only: l)
  then have "map marker_shape (markers_on_map (render_all [Some miami_result])) =
      [marker_of_site brickell, marker_of_site wynwood]"
    by (simp add: markers_reflect_def sites_of_def miami_result_def)
  then obtain mk mk' where mks: "markers_on_map (render_all [Some miami_result]) = [mk, mk']"
    and sh: "marker_shape mk = marker_of_site brickell"
    by (auto simp: map_eq_Cons_conv)
  define w4 where "w4 = w3\<lparr>ui := run_effects (fire ''mouseover'' mk) (ui w3)\<rparr>"
  have r4: "reachable w4"
    unfolding w4_def
    by (rule reachable.pointer_enter[OF r3])
       (simp_all add: rmap3 mks ui3 st2 map_uncovered_def overlays_def)
  have ui4: "ui w4 = run_effects
      (fire ''mouseover'' (markers_on_map (render_all [Some miami_result]) ! 0))
      (run_effects (handleSubmit ok_client miami_form)
         (handleInputChange ''location'' ''Miami, FL'' initial_state))"
    by (simp add: w4_def ui3 ui2 mks)
  have st4: "ui w4 = \<lparr>formData = miami_form, loading = False, gisData = Some miami_result,
      error = None, hoveredSite = Some brickell\<rparr>"
    by (simp add: w4_def ui3 st2 fire_marker_of_site(1)[OF sh] run_effects_Cons run_effects_Nil)
  from overlays_exclusive[OF r4, where f = miami_form and e = None]
  have "overlays (ui w4) = [HoverCard]"
    by (simp add: st4)
  then show ?thesis
    using first by (simp add: ui4)
qed

end
